theory Spec2Isabelle
  imports Main "HOL-Library.Product_Lexorder" "HOL-Library.List_Lexorder"
begin

section \<open>Python values used by \<open>suit/admin.py\<close>\<close>

text \<open>
  The attributes that the sortable admin classes read and write are dynamically typed.
  Three shapes of value matter: \<open>None\<close>, an integer and a string.
\<close>

datatype pyval = PNone | PInt int | PStr string

datatype py_error = TypeError | AssertionError

text \<open>Python truthiness, as used by \<open>if not obj.pk\<close>.\<close>

fun truthy :: "pyval \<Rightarrow> bool" where
  "truthy PNone = False"
| "truthy (PInt n) = (n \<noteq> 0)"
| "truthy (PStr s) = (s \<noteq> [])"

text \<open>The expression \<open>v + 1\<close>: defined on integers, a \<open>TypeError\<close> on \<open>None\<close> and on strings.\<close>

fun py_add_one :: "pyval \<Rightarrow> py_error + pyval" where
  "py_add_one (PInt n) = Inr (PInt (n + 1))"
| "py_add_one PNone = Inl TypeError"
| "py_add_one (PStr s) = Inl TypeError"

text \<open>
  A Python sequence attribute: \<open>None\<close>, a tuple or a list. Tuples and lists hold the same
  items; only lists can be modified in place.
\<close>

datatype 'a pyseq = SeqNone | SeqTuple "'a list" | SeqList "'a list"

fun items :: "'a pyseq \<Rightarrow> 'a list" where
  "items SeqNone = []"
| "items (SeqTuple xs) = xs"
| "items (SeqList xs) = xs"

fun seq_truthy :: "'a pyseq \<Rightarrow> bool" where
  "seq_truthy SeqNone = False"
| "seq_truthy (SeqTuple xs) = (xs \<noteq> [])"
| "seq_truthy (SeqList xs) = (xs \<noteq> [])"

fun is_tuple :: "'a pyseq \<Rightarrow> bool" where
  "is_tuple (SeqTuple xs) = True"
| "is_tuple _ = False"


section \<open>\<open>SortableChangeList.get_ordering\<close>\<close>

text \<open>
  The change list reads \<open>self.model_admin.sortable\<close> and \<open>self.model._meta.pk.name\<close>.
  The request and the queryset are arguments that the body never touches; they are kept
  as arguments of arbitrary type.
\<close>

record change_list =
  model_admin_sortable :: string
  model_pk_name :: string

definition get_ordering :: "change_list \<Rightarrow> 'req \<Rightarrow> 'qs \<Rightarrow> string list" where
  "get_ordering self request queryset =
     [model_admin_sortable self, ''-'' @ model_pk_name self]"

text \<open>
  The host framework reads an ordering term with a leading minus sign as descending and
  any other term as ascending.
\<close>

datatype direction = Ascending | Descending

fun get_order_dir :: "string \<Rightarrow> string \<times> direction" where
  "get_order_dir [] = ([], Ascending)"
| "get_order_dir (c # cs) = (if c = CHR ''-'' then (cs, Descending) else (c # cs, Ascending))"


section \<open>\<open>SortableModelAdmin.save_model\<close>\<close>

text \<open>
  A row of the model's table has a primary key and the value of the sortable column,
  which is an integer or NULL, and whatever other columns the model has. The object
  handed to \<open>save_model\<close> carries the primary key and the sortable attribute as Python
  values.
\<close>

record db_row =
  row_pk :: int
  row_order :: "int option"

text \<open>
  A model whose records are grouped, for instance under a parent record, has one more
  column, the grouping key; a scope is the set of rows with one value of that key.
  Nothing in \<open>save_model\<close> reads this column.
\<close>

record scoped_row = db_row +
  row_scope :: nat

definition in_scope :: "nat \<Rightarrow> scoped_row list \<Rightarrow> scoped_row list" where
  "in_scope s tbl = filter (\<lambda>r. row_scope r = s) tbl"

record model_obj =
  pk :: pyval
  order :: pyval

text \<open>
  \<open>objects.aggregate(Max(sortable))\<close>: the maximum of the non-NULL values of the column
  over all rows of the table, and \<open>None\<close> when there is no such value.
\<close>

definition non_null_orders :: "'a db_row_scheme list \<Rightarrow> int list" where
  "non_null_orders tbl = [v. Some v \<leftarrow> map row_order tbl]"

definition aggregate_max :: "'a db_row_scheme list \<Rightarrow> pyval" where
  "aggregate_max tbl =
     (case non_null_orders tbl of
        [] \<Rightarrow> PNone
      | v # vs \<Rightarrow> PInt (fold max vs v))"

text \<open>The \<open>try\<close> block: \<open>max + 1\<close>, with only \<open>TypeError\<close> caught and replaced by 1.\<close>

definition next_order_from :: "pyval \<Rightarrow> py_error + pyval" where
  "next_order_from max_order =
     (case py_add_one max_order of
        Inr v \<Rightarrow> Inr v
      | Inl TypeError \<Rightarrow> Inr (PInt 1)
      | Inl e \<Rightarrow> Inl e)"

definition next_order :: "'a db_row_scheme list \<Rightarrow> py_error + pyval" where
  "next_order tbl = next_order_from (aggregate_max tbl)"

text \<open>
  The part of \<open>save_model\<close> that belongs to this repository: the object as it is handed to
  the superclass, which then writes it to the table.
\<close>

definition assign_order :: "pyval \<Rightarrow> model_obj \<Rightarrow> py_error + model_obj" where
  "assign_order max_order obj =
     (if \<not> truthy (pk obj) then
        (case next_order_from max_order of
           Inl e \<Rightarrow> Inl e
         | Inr n \<Rightarrow> Inr (obj\<lparr>order := n\<rparr>))
      else Inr obj)"

definition save_model ::
  "(model_obj \<Rightarrow> 'a db_row_scheme list \<Rightarrow> 'a db_row_scheme list) \<Rightarrow> model_obj
     \<Rightarrow> 'a db_row_scheme list \<Rightarrow> py_error + (model_obj \<times> 'a db_row_scheme list)" where
  "save_model super_save_model obj tbl =
     (case assign_order (aggregate_max tbl) obj of
        Inl e \<Rightarrow> Inl e
      | Inr obj' \<Rightarrow> Inr (obj', super_save_model obj' tbl))"

text \<open>
  One superclass save for the scenarios below: an object without a primary key is
  inserted under a fresh key, with its integer order value.
\<close>

definition insert_row :: "model_obj \<Rightarrow> db_row list \<Rightarrow> db_row list" where
  "insert_row obj tbl =
     tbl @ [\<lparr>row_pk = fold max (map row_pk tbl) 0 + 1,
             row_order = (case order obj of PInt n \<Rightarrow> Some n | _ \<Rightarrow> None)\<rparr>]"


section \<open>\<open>SortableModelAdmin.__init__\<close>\<close>

record model_admin =
  sortable :: string
  ordering :: "string pyseq"
  list_display :: "string pyseq"
  list_editable :: "string pyseq"
  exclude :: "string pyseq"

text \<open>\<open>x or []\<close> on a sequence attribute.\<close>

definition or_empty :: "'a pyseq \<Rightarrow> 'a pyseq" where
  "or_empty xs = (if seq_truthy xs then xs else SeqList [])"

definition append_absent :: "'a \<Rightarrow> 'a pyseq \<Rightarrow> 'a pyseq" where
  "append_absent x xs = (if x \<notin> set (items xs) then SeqList (items xs @ [x]) else xs)"

definition init_admin :: "model_admin \<Rightarrow> model_admin" where
  "init_admin self =
     (let s = sortable self;
          ld = (if seq_truthy (list_display self) \<and> s \<notin> set (items (list_display self))
                then SeqList (items (list_display self) @ [s])
                else list_display self);
          le = append_absent s (or_empty (list_editable self));
          ex = append_absent s (or_empty (exclude self))
      in self\<lparr>ordering := SeqTuple [s], list_display := ld, list_editable := le, exclude := ex\<rparr>)"


section \<open>The constructors of the sortable inlines\<close>

text \<open>
  \<open>SortableTabularInlineBase.__init__\<close> and \<open>SortableStackedInlineBase.__init__\<close> both set
  \<open>self.ordering = (self.sortable,)\<close>: an inline lists the records of its parent by the
  sortable field alone.
\<close>

definition inline_ordering :: "string \<Rightarrow> string pyseq" where
  "inline_ordering self_sortable = SeqTuple [self_sortable]"


section \<open>\<open>SortableStackedInlineBase.get_fieldsets\<close>\<close>

text \<open>
  The superclass returns a list of fieldsets. A fieldset is a tuple, normally
  \<open>(name, options)\<close>; the loop walks over its components and looks at those that are
  non-empty dictionaries. An entry of a \<open>fields\<close> list is a field name, or a tuple of names
  shown on one line.
\<close>

datatype field_entry = FName string | FRow "string list"

text \<open>
  An options dictionary: the value stored under the key \<open>fields\<close> (if the key is there)
  and the other keys. The dictionary is falsy when it has no key at all.
\<close>

record fs_options =
  fields_key :: "field_entry pyseq option"
  other_keys :: "string list"

definition dict_truthy :: "fs_options \<Rightarrow> bool" where
  "dict_truthy d = (fields_key d \<noteq> None \<or> other_keys d \<noteq> [])"

text \<open>\<open>line.get("fields")\<close>: \<open>None\<close> when the key is missing.\<close>

definition get_fields :: "fs_options \<Rightarrow> field_entry pyseq" where
  "get_fields d = (case fields_key d of None \<Rightarrow> SeqNone | Some v \<Rightarrow> v)"

datatype fs_line = LineValue pyval | LineDict fs_options

type_synonym fieldset = "fs_line list"

text \<open>The rest of the inner loop went on after this line was left as \<open>l\<close>.\<close>

definition keep_line ::
  "fs_line \<Rightarrow> py_error + (bool \<times> fieldset) \<Rightarrow> py_error + (bool \<times> fieldset)" where
  "keep_line l r = (case r of Inl e \<Rightarrow> Inl e | Inr (a, ls) \<Rightarrow> Inr (a, l # ls))"

text \<open>
  \<open>if self.sortable in fields: fields.remove(self.sortable)\<close>. Python's \<open>list.remove\<close> takes
  out the first equal item.
\<close>

definition remove_sortable :: "string \<Rightarrow> field_entry list \<Rightarrow> field_entry list" where
  "remove_sortable s fs = (if FName s \<in> set fs then remove1 (FName s) fs else fs)"

text \<open>
  The inner loop \<open>for line in fieldset\<close>, with the flag \<open>sortable_added\<close> passed in and
  out. A tuple raises \<open>AssertionError\<close>; \<open>self.sortable in None\<close> raises \<open>TypeError\<close>; the
  \<open>break\<close> leaves the remaining lines of the fieldset as they are.
\<close>

fun process_lines :: "string \<Rightarrow> bool \<Rightarrow> fieldset \<Rightarrow> py_error + (bool \<times> fieldset)" where
  "process_lines s added [] = Inr (added, [])"
| "process_lines s added (LineValue v # ls) = keep_line (LineValue v) (process_lines s added ls)"
| "process_lines s added (LineDict d # ls) =
     (if \<not> dict_truthy d then keep_line (LineDict d) (process_lines s added ls)
      else
        (case get_fields d of
           SeqTuple fs \<Rightarrow> Inl AssertionError
         | SeqNone \<Rightarrow> Inl TypeError
         | SeqList fs \<Rightarrow>
             (if \<not> added then
                Inr (True,
                     LineDict (d\<lparr>fields_key := Some (SeqList (FName s # remove_sortable s fs))\<rparr>)
                       # ls)
              else
                keep_line (LineDict (d\<lparr>fields_key := Some (SeqList (remove_sortable s fs))\<rparr>))
                  (process_lines s added ls))))"

text \<open>The outer loop \<open>for fieldset in fieldsets\<close>.\<close>

fun process_fieldsets :: "string \<Rightarrow> bool \<Rightarrow> fieldset list \<Rightarrow> py_error + fieldset list" where
  "process_fieldsets s added [] = Inr []"
| "process_fieldsets s added (f # fs) =
     (case process_lines s added f of
        Inl e \<Rightarrow> Inl e
      | Inr (added', f') \<Rightarrow>
          (case process_fieldsets s added' fs of
             Inl e \<Rightarrow> Inl e
           | Inr fs' \<Rightarrow> Inr (f' # fs')))"

text \<open>
  \<open>get_fieldsets\<close>: \<open>super_fieldsets\<close> is what the superclass returned; the flag starts as
  \<open>False\<close>.
\<close>

definition get_fieldsets :: "string \<Rightarrow> fieldset list \<Rightarrow> py_error + fieldset list" where
  "get_fieldsets self_sortable super_fieldsets =
     process_fieldsets self_sortable False super_fieldsets"

text \<open>
  The field groupings that the loop processes: the dictionaries for which control reaches
  \<open>fields = line.get("fields")\<close>, in the order in which it does. The second component is
  the flag after the inner loop, and \<open>None\<close> when the loop raised.
\<close>

fun processed_lines :: "string \<Rightarrow> bool \<Rightarrow> fieldset \<Rightarrow> fs_options list \<times> bool option" where
  "processed_lines s added [] = ([], Some added)"
| "processed_lines s added (LineValue v # ls) = processed_lines s added ls"
| "processed_lines s added (LineDict d # ls) =
     (if \<not> dict_truthy d then processed_lines s added ls
      else
        (case get_fields d of
           SeqTuple fs \<Rightarrow> ([d], None)
         | SeqNone \<Rightarrow> ([d], None)
         | SeqList fs \<Rightarrow>
             (if \<not> added then ([d], Some True)
              else (d # fst (processed_lines s added ls), snd (processed_lines s added ls)))))"

fun processed :: "string \<Rightarrow> bool \<Rightarrow> fieldset list \<Rightarrow> fs_options list" where
  "processed s added [] = []"
| "processed s added (f # fs) =
     (case snd (processed_lines s added f) of
        None \<Rightarrow> fst (processed_lines s added f)
      | Some added' \<Rightarrow> fst (processed_lines s added f) @ processed s added' fs)"

text \<open>The field lists of the groupings of a result, for reading it.\<close>

fun line_fields :: "fs_line \<Rightarrow> field_entry list list" where
  "line_fields (LineValue v) = []"
| "line_fields (LineDict d) = (case fields_key d of None \<Rightarrow> [] | Some v \<Rightarrow> [items v])"

definition groupings :: "fieldset list \<Rightarrow> field_entry list list" where
  "groupings fss = concat (map (\<lambda>f. concat (map line_fields f)) fss)"

text \<open>The usual fieldset \<open>(name, {"fields": [...]})\<close> with a list of plain field names.\<close>

definition named_fieldset :: "pyval \<Rightarrow> string list \<Rightarrow> fieldset" where
  "named_fieldset name fs =
     [LineValue name, LineDict \<lparr>fields_key = Some (SeqList (map FName fs)), other_keys = []\<rparr>]"


section \<open>The ordered view and the order persister\<close>

text \<open>
  The source files hold no code that reads a scope in order or applies a batch of order
  updates: the host framework does both. The definitions of this section follow sections
  3, 4.2 and 4.3 of the specification.
\<close>

text \<open>
  Modelled from the spec: the ordered record, missing from the source. It has a unique
  identifier, an integer order value and a grouping key (its scope).
\<close>

record ordered_record =
  rec_ident :: int
  rec_order :: int
  rec_scope :: nat

text \<open>Modelled from the spec: the persistent record store, missing from the source.\<close>

type_synonym store = "ordered_record list"

text \<open>
  Modelled from the spec: the reorder batch, missing from the source: an ordered sequence
  of pairs \<open>(identifier, new_order)\<close>.
\<close>

type_synonym reorder_batch = "(int \<times> int) list"

text \<open>Modelled from the spec: the error taxonomy of section 7, missing from the source.\<close>

datatype persist_error = ValidationError | StorageError | PartialFailure

text \<open>
  Modelled from the spec: the lookup of a record by its identifier, missing from the
  source.
\<close>

definition find_record :: "store \<Rightarrow> int \<Rightarrow> ordered_record option" where
  "find_record st i = find (\<lambda>r. rec_ident r = i) st"

text \<open>
  Modelled from the spec: the scope of the record with a given identifier, missing from
  the source.
\<close>

definition scope_of :: "store \<Rightarrow> int \<Rightarrow> nat option" where
  "scope_of st i = map_option rec_scope (find_record st i)"

text \<open>
  Modelled from the spec: the validation of \<open>OrderPersister.apply\<close>, missing from the
  source: all identifiers of the batch exist and share one scope.
\<close>

definition batch_valid :: "store \<Rightarrow> reorder_batch \<Rightarrow> bool" where
  "batch_valid st b =
     ((\<forall>p \<in> set b. find_record st (fst p) \<noteq> None) \<and>
      (\<forall>p \<in> set b. \<forall>q \<in> set b. scope_of st (fst p) = scope_of st (fst q)))"

text \<open>
  Modelled from the spec: one write \<open>(identifier, new_order)\<close> of a batch, missing from
  the source.
\<close>

definition write_order :: "int \<times> int \<Rightarrow> store \<Rightarrow> store" where
  "write_order p st = map (\<lambda>r. if rec_ident r = fst p then r\<lparr>rec_order := snd p\<rparr> else r) st"

text \<open>
  Modelled from the spec: \<open>OrderPersister.apply\<close>, missing from the source. It validates
  the batch and fails with \<open>ValidationError\<close> without writing; otherwise it performs every
  write of the batch, in the order of the batch. The result is paired with the store
  after the call.
\<close>

definition apply_batch :: "reorder_batch \<Rightarrow> store \<Rightarrow> (persist_error + unit) \<times> store" where
  "apply_batch b st =
     (if batch_valid st b then (Inr (), fold write_order b st)
      else (Inl ValidationError, st))"

text \<open>
  Modelled from the spec: the value of a named field of a record, missing from the
  source. A record has its order value under the name of the sortable field and its
  identifier under the name of the primary key.
\<close>

definition field_value :: "string \<Rightarrow> string \<Rightarrow> ordered_record \<Rightarrow> string \<Rightarrow> int option" where
  "field_value order_name pk_name r f =
     (if f = order_name then Some (rec_order r)
      else if f = pk_name then Some (rec_ident r)
      else None)"

text \<open>
  Modelled from the spec: the value by which one ordering term sorts a record, missing
  from the source: the value of the field of the term, negated when the term is
  descending.
\<close>

definition term_value :: "string \<Rightarrow> string \<Rightarrow> string \<Rightarrow> ordered_record \<Rightarrow> int option" where
  "term_value order_name pk_name t r =
     (case get_order_dir t of
        (f, Ascending) \<Rightarrow> field_value order_name pk_name r f
      | (f, Descending) \<Rightarrow> map_option uminus (field_value order_name pk_name r f))"

text \<open>
  Modelled from the spec: the failure of a read whose ordering names a field that the
  record does not have, missing from the source.
\<close>

datatype query_error = FieldError

text \<open>
  Modelled from the spec: the check that every ordering term names a field of the
  record, missing from the source.
\<close>

definition terms_known :: "string \<Rightarrow> string \<Rightarrow> string list \<Rightarrow> bool" where
  "terms_known order_name pk_name terms =
     (\<forall>t \<in> set terms. fst (get_order_dir t) = order_name \<or> fst (get_order_dir t) = pk_name)"

text \<open>
  Modelled from the spec: the sort key that a list of ordering terms gives to a record,
  missing from the source: the values of the terms, the first term first.
\<close>

definition order_key :: "string \<Rightarrow> string \<Rightarrow> string list \<Rightarrow> ordered_record \<Rightarrow> int list" where
  "order_key order_name pk_name terms r =
     map (\<lambda>t. case term_value order_name pk_name t r of None \<Rightarrow> 0 | Some v \<Rightarrow> v) terms"

text \<open>
  Modelled from the spec: the ordered read of the storage collaborator (section 6),
  missing from the source. The rows are sorted by the ordering terms it is given and by
  nothing else; rows that agree on every term stay in the order of the store.
\<close>

definition order_by ::
  "string \<Rightarrow> string \<Rightarrow> string list \<Rightarrow> ordered_record list
     \<Rightarrow> query_error + ordered_record list" where
  "order_by order_name pk_name terms rs =
     (if terms_known order_name pk_name terms
      then Inr (sort_key (order_key order_name pk_name terms) rs)
      else Inl FieldError)"

text \<open>
  Modelled from the spec: the read of the change list, missing from the source, where
  the host framework runs it. It reads the records of the model's table with the
  ordering that \<open>get_ordering\<close> of the source returns for the request and the queryset, as
  the sole ordering.
\<close>

definition changelist_view ::
  "change_list \<Rightarrow> 'req \<Rightarrow> store \<Rightarrow> query_error + ordered_record list" where
  "changelist_view cl request st =
     order_by (model_admin_sortable cl) (model_pk_name cl) (get_ordering cl request st) st"

text \<open>
  Modelled from the spec: the read of an inline, missing from the source, where the host
  framework runs it. It reads the records of one scope (the records of its parent) with
  the ordering that the constructor of the inline sets in the source.
\<close>

definition inline_view ::
  "string \<Rightarrow> string \<Rightarrow> store \<Rightarrow> nat \<Rightarrow> query_error + ordered_record list" where
  "inline_view self_sortable pk_name st s =
     order_by self_sortable pk_name (items (inline_ordering self_sortable))
       (filter (\<lambda>r. rec_scope r = s) st)"

text \<open>
  Modelled from the spec: the order value that a batch gives to an identifier, missing
  from the source: that of the last pair of the batch for the identifier.
\<close>

definition batch_order :: "reorder_batch \<Rightarrow> int \<Rightarrow> int option" where
  "batch_order b i = map_of (rev b) i"




text \<open>
  Modelled from the spec: the effect of all the writes of a batch on one record, missing
  from the source: the record takes the order value that the batch gives to its
  identifier, and stays as it is when the batch does not name it.
\<close>

definition batch_update :: "reorder_batch \<Rightarrow> ordered_record \<Rightarrow> ordered_record" where
  "batch_update b r =
     (case batch_order b (rec_ident r) of None \<Rightarrow> r | Some n \<Rightarrow> r\<lparr>rec_order := n\<rparr>)"


section \<open>Next order value of a new record\<close>

lemma fold_max_Max: "fold max vs (v::int) = Max (set (v # vs))"
  by (rule Max.set_eq_fold [symmetric])

lemma aggregate_max_eq:
  "aggregate_max tbl =
     (if non_null_orders tbl = [] then PNone else PInt (Max (set (non_null_orders tbl))))"
  by (auto simp: aggregate_max_def fold_max_Max split: list.splits)

lemma set_non_null_orders:
  "set (non_null_orders tbl) = {v. \<exists>r \<in> set tbl. row_order r = Some v}"
  by (induction tbl) (auto simp: non_null_orders_def split: option.splits)

lemma next_order_no_value:
  assumes "\<forall>r \<in> set tbl. row_order r = None"
  shows "next_order tbl = Inr (PInt 1)"
proof -
  from assms have "set (non_null_orders tbl) = {}"
    by (auto simp: set_non_null_orders)
  then have "non_null_orders tbl = []"
    by simp
  then show ?thesis
    by (simp add: next_order_def next_order_from_def aggregate_max_eq)
qed

lemma next_order_maximum:
  assumes "\<exists>r \<in> set tbl. row_order r = Some m"
      and "\<forall>r \<in> set tbl. \<forall>v. row_order r = Some v \<longrightarrow> v \<le> m"
  shows "next_order tbl = Inr (PInt (m + 1))"
proof -
  from assms(1) have mem: "m \<in> set (non_null_orders tbl)"
    by (auto simp: set_non_null_orders)
  then have ne: "non_null_orders tbl \<noteq> []"
    by auto
  from assms(2) have "\<And>v. v \<in> set (non_null_orders tbl) \<Longrightarrow> v \<le> m"
    by (auto simp: set_non_null_orders)
  with mem have "Max (set (non_null_orders tbl)) = m"
    by (intro Max_eqI) auto
  with ne show ?thesis
    by (simp add: next_order_def next_order_from_def aggregate_max_eq)
qed

lemma save_model_new:
  "\<not> truthy (pk obj) \<Longrightarrow> next_order tbl = Inr n \<Longrightarrow>
     save_model super_save obj tbl = Inr (obj\<lparr>order := n\<rparr>, super_save (obj\<lparr>order := n\<rparr>) tbl)"
  by (simp add: save_model_def assign_order_def next_order_def)

text \<open>
  Claim C1, as stated: for every scope, the next order value is the maximum of the order
  values of the records of that scope plus one, and 1 for an empty scope. The aggregate
  of \<open>save_model\<close> runs over \<open>obj.__class__.objects\<close>, all the rows of the table: below, the
  scope 2 is empty and the table holds one record of scope 1 with order 7, and a new
  record gets 8, not 1.
\<close>

theorem next_order_other_scope_counterexample:
  "in_scope 2 [\<lparr>row_pk = 1, row_order = Some 7, row_scope = 1\<rparr>] = [] \<and>
   next_order [\<lparr>row_pk = 1, row_order = Some 7, row_scope = 1\<rparr>] = Inr (PInt 8) \<and>
   save_model (\<lambda>obj tbl. tbl) \<lparr>pk = PNone, order = PNone\<rparr>
       [\<lparr>row_pk = 1, row_order = Some 7, row_scope = 1\<rparr>]
     = Inr (\<lparr>pk = PNone, order = PInt 8\<rparr>, [\<lparr>row_pk = 1, row_order = Some 7, row_scope = 1\<rparr>])"
  by (simp add: in_scope_def next_order_def next_order_from_def aggregate_max_def
      non_null_orders_def save_model_def assign_order_def)

text \<open>
  Claim C1, amended: the next-order computation made when a new record is saved takes
  the maximum of the order values of all the records of the model's table, whatever
  their scope and that of the new record. When that maximum is \<open>m\<close> (some row has order
  \<open>m\<close> and no row has a greater one) it returns \<open>m + 1\<close>; when the table is empty or no row
  has an order value it returns 1. A record whose primary key is falsy is handed to the
  superclass with exactly that order value.
\<close>

theorem next_order_of_table:
  "((\<forall>r \<in> set tbl. row_order r = None) \<longrightarrow>
      next_order tbl = Inr (PInt 1) \<and>
      (\<not> truthy (pk obj) \<longrightarrow>
         save_model super_save obj tbl =
           Inr (obj\<lparr>order := PInt 1\<rparr>, super_save (obj\<lparr>order := PInt 1\<rparr>) tbl)))
   \<and> ((\<exists>r \<in> set tbl. row_order r = Some m) \<and>
       (\<forall>r \<in> set tbl. \<forall>v. row_order r = Some v \<longrightarrow> v \<le> m) \<longrightarrow>
      next_order tbl = Inr (PInt (m + 1)) \<and>
      (\<not> truthy (pk obj) \<longrightarrow>
         save_model super_save obj tbl =
           Inr (obj\<lparr>order := PInt (m + 1)\<rparr>, super_save (obj\<lparr>order := PInt (m + 1)\<rparr>) tbl)))"
  using next_order_no_value [of tbl] next_order_maximum [of tbl m]
    save_model_new [of obj tbl _ super_save]
  by blast

theorem next_order_of_table_witness:
  "(\<exists>r \<in> set [\<lparr>row_pk = 1, row_order = Some 4, row_scope = 1\<rparr>,
               \<lparr>row_pk = 2, row_order = None, row_scope = 1\<rparr>,
               \<lparr>row_pk = 3, row_order = Some 2, row_scope = 2\<rparr>]. row_order r = Some 4) \<and>
   \<not> truthy (pk \<lparr>pk = PNone, order = PNone\<rparr>) \<and>
   next_order [\<lparr>row_pk = 1, row_order = Some 4, row_scope = 1\<rparr>,
               \<lparr>row_pk = 2, row_order = None, row_scope = 1\<rparr>,
               \<lparr>row_pk = 3, row_order = Some 2, row_scope = 2\<rparr>] = Inr (PInt 5) \<and>
   save_model (\<lambda>obj tbl. tbl) \<lparr>pk = PNone, order = PNone\<rparr>
       [\<lparr>row_pk = 1, row_order = Some 4, row_scope = 1\<rparr>,
        \<lparr>row_pk = 2, row_order = None, row_scope = 1\<rparr>,
        \<lparr>row_pk = 3, row_order = Some 2, row_scope = 2\<rparr>]
     = Inr (\<lparr>pk = PNone, order = PInt 5\<rparr>,
            [\<lparr>row_pk = 1, row_order = Some 4, row_scope = 1\<rparr>,
             \<lparr>row_pk = 2, row_order = None, row_scope = 1\<rparr>,
             \<lparr>row_pk = 3, row_order = Some 2, row_scope = 2\<rparr>]) \<and>
   next_order ([] :: scoped_row list) = Inr (PInt 1)"
  using next_order_of_table
    [of "[\<lparr>row_pk = 1, row_order = Some 4, row_scope = 1\<rparr>,
          \<lparr>row_pk = 2, row_order = None, row_scope = 1\<rparr>,
          \<lparr>row_pk = 3, row_order = Some 2, row_scope = 2\<rparr>]"
      "\<lparr>pk = PNone, order = PNone\<rparr>" "\<lambda>obj tbl. tbl" 4]
    next_order_of_table [of "[] :: scoped_row list"]
  by simp

text \<open>
  The scenario of the specification: on an empty table the next order value is 1; after
  the record is inserted with order 1, the next order value is 2.
\<close>

lemma next_order_scenario:
  "next_order [] = Inr (PInt 1) \<and>
   save_model insert_row \<lparr>pk = PNone, order = PNone\<rparr> [] =
     Inr (\<lparr>pk = PNone, order = PInt 1\<rparr>, [\<lparr>row_pk = 1, row_order = Some 1\<rparr>]) \<and>
   next_order [\<lparr>row_pk = 1, row_order = Some 1\<rparr>] = Inr (PInt 2)"
  by (simp add: next_order_def next_order_from_def aggregate_max_def non_null_orders_def
      save_model_def assign_order_def insert_row_def)

text \<open>
  Claim C7. When the aggregate yields \<open>None\<close>, or any value for which adding 1 raises a
  \<open>TypeError\<close>, the computation raises nothing: the next order value is 1, and a new record
  is given order 1.
\<close>

theorem type_error_falls_back_to_one:
  "py_add_one v = Inl TypeError \<Longrightarrow>
     next_order_from v = Inr (PInt 1) \<and>
     (\<not> truthy (pk obj) \<longrightarrow> assign_order v obj = Inr (obj\<lparr>order := PInt 1\<rparr>))"
  by (simp add: next_order_from_def assign_order_def)

theorem type_error_falls_back_to_one_witness:
  "py_add_one (PStr ''a'') = Inl TypeError \<and> \<not> truthy (pk \<lparr>pk = PNone, order = PNone\<rparr>) \<and>
   next_order_from (PStr ''a'') = Inr (PInt 1) \<and>
   assign_order (PStr ''a'') \<lparr>pk = PNone, order = PNone\<rparr> = Inr \<lparr>pk = PNone, order = PInt 1\<rparr>"
  using type_error_falls_back_to_one [of "PStr ''a''" "\<lparr>pk = PNone, order = PNone\<rparr>"]
  by simp

text \<open>The same fallback on \<open>None\<close>, the value of the aggregate on an empty table.\<close>

lemma none_falls_back_to_one:
  "aggregate_max [] = PNone \<and> next_order_from PNone = Inr (PInt 1)"
  by (simp add: aggregate_max_def non_null_orders_def next_order_from_def)


section \<open>Saving a record that has a primary key\<close>

text \<open>
  Claim C6, as stated: saving a record that already has an identifier leaves its order
  value unchanged. The code tests \<open>not obj.pk\<close>, which is also true of the identifier 0:
  such a record has an identifier and still gets a new order value.
\<close>

theorem save_model_pk_zero_counterexample:
  "pk \<lparr>pk = PInt 0, order = PInt 7\<rparr> \<noteq> PNone \<and>
   save_model (\<lambda>obj tbl. tbl) \<lparr>pk = PInt 0, order = PInt 7\<rparr>
       [\<lparr>row_pk = 0, row_order = Some 7\<rparr>]
     = Inr (\<lparr>pk = PInt 0, order = PInt 8\<rparr>, [\<lparr>row_pk = 0, row_order = Some 7\<rparr>])"
  by (simp add: save_model_def assign_order_def next_order_from_def aggregate_max_def
      non_null_orders_def)

text \<open>
  Claim C6, amended: saving a record whose identifier is truthy (set, and neither 0 nor
  the empty string) hands the record to the superclass as it is, so its order value is
  unchanged; the order value is assigned only where the identifier is falsy.
\<close>

theorem save_model_keeps_order:
  "truthy (pk obj) \<Longrightarrow> save_model super_save obj tbl = Inr (obj, super_save obj tbl)"
  by (simp add: save_model_def assign_order_def)

theorem save_model_keeps_order_witness:
  "truthy (pk \<lparr>pk = PInt 3, order = PInt 7\<rparr>) \<and>
   save_model (\<lambda>obj tbl. tbl) \<lparr>pk = PInt 3, order = PInt 7\<rparr>
       [\<lparr>row_pk = 3, row_order = Some 7\<rparr>, \<lparr>row_pk = 4, row_order = Some 9\<rparr>]
     = Inr (\<lparr>pk = PInt 3, order = PInt 7\<rparr>,
            [\<lparr>row_pk = 3, row_order = Some 7\<rparr>, \<lparr>row_pk = 4, row_order = Some 9\<rparr>])"
  using save_model_keeps_order [of "\<lparr>pk = PInt 3, order = PInt 7\<rparr>" "\<lambda>obj tbl. tbl"
      "[\<lparr>row_pk = 3, row_order = Some 7\<rparr>, \<lparr>row_pk = 4, row_order = Some 9\<rparr>]"]
  by simp


section \<open>The ordering of the change list\<close>

text \<open>
  Claim C2. For every request and every queryset, \<open>get_ordering\<close> returns exactly two
  terms, the sortable field and the primary key with a minus sign, whatever the request
  and the queryset are. The second term reads as descending; the first reads as
  ascending, a field name having no leading minus sign.
\<close>

theorem get_ordering_fixed:
  "get_ordering self request queryset =
     [model_admin_sortable self, CHR ''-'' # model_pk_name self]
   \<and> get_ordering self request queryset = get_ordering self request' queryset'
   \<and> get_order_dir (get_ordering self request queryset ! 1) = (model_pk_name self, Descending)
   \<and> ((\<forall>cs. model_admin_sortable self \<noteq> CHR ''-'' # cs) \<longrightarrow>
        map get_order_dir (get_ordering self request queryset)
          = [(model_admin_sortable self, Ascending), (model_pk_name self, Descending)])"
  by (cases "model_admin_sortable self") (auto simp: get_ordering_def)

theorem get_ordering_fixed_witness:
  "(\<forall>cs. model_admin_sortable \<lparr>model_admin_sortable = ''order'', model_pk_name = ''id''\<rparr>
          \<noteq> CHR ''-'' # cs) \<and>
   get_ordering \<lparr>model_admin_sortable = ''order'', model_pk_name = ''id''\<rparr> () ()
     = [''order'', ''-id''] \<and>
   map get_order_dir
       (get_ordering \<lparr>model_admin_sortable = ''order'', model_pk_name = ''id''\<rparr> () ())
     = [(''order'', Ascending), (''id'', Descending)]"
  using get_ordering_fixed
    [of "\<lparr>model_admin_sortable = ''order'', model_pk_name = ''id''\<rparr>" "()" "()" "()" "()"]
  by simp


section \<open>The lists set up by the constructor\<close>

lemma count_list_pos: "x \<in> set xs \<Longrightarrow> Suc 0 \<le> count_list xs x"
  using count_list_0_iff [of xs x] by (cases "count_list xs x") auto

lemma count_append_absent:
  "count_list (items (append_absent x xs)) x = max 1 (count_list (items xs) x)"
  by (auto simp: append_absent_def max_def dest: count_list_pos)

lemma mem_append_absent: "x \<in> set (items (append_absent x xs))"
  by (simp add: append_absent_def)

lemma count_or_empty: "count_list (items (or_empty xs)) x = count_list (items xs) x"
  by (cases xs) (auto simp: or_empty_def)

text \<open>
  Claim C9, as stated: after construction each of the three lists contains the sortable
  field at most once. The constructor appends the field only when it is absent and removes
  nothing, so a list configured with the field twice keeps both occurrences.
\<close>

theorem init_admin_duplicate_counterexample:
  "\<not> count_list (items (list_editable (init_admin
        \<lparr>sortable = ''order'', ordering = SeqNone, list_display = SeqTuple [''name''],
         list_editable = SeqList [''order'', ''order''], exclude = SeqNone\<rparr>))) ''order'' \<le> 1"
  by (simp add: init_admin_def Let_def append_absent_def or_empty_def)

text \<open>
  Claim C9, amended: after construction the sortable field is a member of
  \<open>list_editable\<close> and of \<open>exclude\<close>, and of \<open>list_display\<close> whenever that was configured
  non-empty. The constructor never adds a second occurrence and never removes one: in
  each list the number of occurrences afterwards is the number configured, or 1 when that
  was 0 (an empty \<open>list_display\<close> is left as it is). So each list contains the field at
  most once whenever the configured list did.
\<close>

theorem init_admin_sortable_member:
  "sortable (init_admin self) = sortable self
   \<and> sortable self \<in> set (items (list_editable (init_admin self)))
   \<and> sortable self \<in> set (items (exclude (init_admin self)))
   \<and> (seq_truthy (list_display self) \<longrightarrow>
        sortable self \<in> set (items (list_display (init_admin self))))
   \<and> count_list (items (list_editable (init_admin self))) (sortable self)
        = max 1 (count_list (items (list_editable self)) (sortable self))
   \<and> count_list (items (exclude (init_admin self))) (sortable self)
        = max 1 (count_list (items (exclude self)) (sortable self))
   \<and> (seq_truthy (list_display self) \<longrightarrow>
        count_list (items (list_display (init_admin self))) (sortable self)
          = max 1 (count_list (items (list_display self)) (sortable self)))
   \<and> (\<not> seq_truthy (list_display self) \<longrightarrow> list_display (init_admin self) = list_display self)"
  by (auto simp: init_admin_def Let_def mem_append_absent count_append_absent count_or_empty
      max_def dest: count_list_pos)

theorem init_admin_sortable_member_witness:
  "seq_truthy (list_display \<lparr>sortable = ''order'', ordering = SeqNone, list_display = SeqTuple [''name''],
         list_editable = SeqTuple [], exclude = SeqNone\<rparr>) \<and>
   init_admin \<lparr>sortable = ''order'', ordering = SeqNone, list_display = SeqTuple [''name''],
         list_editable = SeqTuple [], exclude = SeqNone\<rparr>
   = \<lparr>sortable = ''order'', ordering = SeqTuple [''order''], list_display = SeqList [''name'', ''order''],
         list_editable = SeqList [''order''], exclude = SeqList [''order'']\<rparr> \<and>
   ''order'' \<in> set (items (list_display (init_admin \<lparr>sortable = ''order'', ordering = SeqNone, list_display = SeqTuple [''name''],
         list_editable = SeqTuple [], exclude = SeqNone\<rparr>))) \<and>
   count_list (items (list_display (init_admin \<lparr>sortable = ''order'', ordering = SeqNone, list_display = SeqTuple [''name''],
         list_editable = SeqTuple [], exclude = SeqNone\<rparr>))) ''order'' = 1"
  using init_admin_sortable_member [of "\<lparr>sortable = ''order'', ordering = SeqNone, list_display = SeqTuple [''name''],
         list_editable = SeqTuple [], exclude = SeqNone\<rparr>"]
  by (simp add: init_admin_def Let_def append_absent_def or_empty_def)


section \<open>The order field in the fieldsets of the stacked inline\<close>

lemma keep_line_Inl [simp]: "keep_line l (Inl e) = Inl e"
  by (simp add: keep_line_def)

lemma keep_line_Inr [simp]: "keep_line l (Inr (a, ls)) = Inr (a, l # ls)"
  by (simp add: keep_line_def)

lemma remove_sortable_names: "remove_sortable s (map FName fs) = map FName (remove1 s fs)"
  by (induction fs) (auto simp: remove_sortable_def)

lemma process_named_added:
  "process_fieldsets s True (map (\<lambda>(n, fs). named_fieldset n fs) rest)
     = Inr (map (\<lambda>(n, fs). named_fieldset n (remove1 s fs)) rest)"
  by (induction rest)
     (auto simp: named_fieldset_def dict_truthy_def get_fields_def remove_sortable_names)

text \<open>
  On fieldsets of the usual form, with lists of plain field names, \<open>get_fieldsets\<close> puts
  the order field at the head of the first grouping and takes one occurrence of it out of
  every grouping.
\<close>

lemma get_fieldsets_named:
  "get_fieldsets s (named_fieldset n1 fs1 # map (\<lambda>(n, fs). named_fieldset n fs) rest)
     = Inr (named_fieldset n1 (s # remove1 s fs1)
            # map (\<lambda>(n, fs). named_fieldset n (remove1 s fs)) rest)"
  using process_named_added [of s rest]
  by (simp add: get_fieldsets_def named_fieldset_def dict_truthy_def get_fields_def
      remove_sortable_names)

text \<open>
  The scenario of the specification: the field list \<open>["name", "order", "description"]\<close>
  becomes \<open>["order", "name", "description"]\<close>.
\<close>

lemma get_fieldsets_scenario:
  "get_fieldsets ''order'' [named_fieldset PNone [''name'', ''order'', ''description'']]
     = Inr [named_fieldset PNone [''order'', ''name'', ''description'']]"
  by (simp add: get_fieldsets_def named_fieldset_def dict_truthy_def get_fields_def
      remove_sortable_def)

text \<open>
  Claim C3. The returned fieldsets should hold the order field exactly once, at the head
  of the first grouping, every other occurrence removed, as the docstring of
  \<open>get_fieldsets\<close> says as well. \<open>list.remove\<close> takes out one occurrence only: on the
  input below the second grouping lists the order field twice and still holds it
  afterwards.
\<close>

theorem get_fieldsets_duplicate_left:
  "map_sum id groupings
     (get_fieldsets ''order''
        [named_fieldset PNone [''name''],
         named_fieldset (PStr ''More'') [''order'', ''order'']])
   = Inr [[FName ''order'', FName ''name''], [FName ''order'']]"
  by (simp add: get_fieldsets_def named_fieldset_def dict_truthy_def get_fields_def
      remove_sortable_def groupings_def)

text \<open>
  The same slip inside the first grouping: the order field is listed twice there
  afterwards.
\<close>

lemma get_fieldsets_duplicate_in_first:
  "map_sum id groupings
     (get_fieldsets ''order'' [named_fieldset PNone [''order'', ''name'', ''order'']])
   = Inr [[FName ''order'', FName ''name'', FName ''order'']]"
  by (simp add: get_fieldsets_def named_fieldset_def dict_truthy_def get_fields_def
      remove_sortable_def groupings_def)


section \<open>Tuples of fields are refused\<close>

lemma processed_lines_tuple:
  "\<exists>d \<in> set (fst (processed_lines s a ls)). is_tuple (get_fields d) \<Longrightarrow>
     process_lines s a ls = Inl AssertionError \<and> snd (processed_lines s a ls) = None"
proof (induction s a ls rule: process_lines.induct)
  case (1 s added)
  then show ?case by simp
next
  case (2 s added v ls)
  then show ?case by simp
next
  case (3 s added d ls)
  show ?case
  proof (cases "dict_truthy d")
    case False
    with 3 show ?thesis by simp
  next
    case True
    show ?thesis
    proof (cases "get_fields d")
      case SeqNone
      with True 3 show ?thesis by simp
    next
      case (SeqTuple fs)
      with True show ?thesis by simp
    next
      case (SeqList fs)
      show ?thesis
      proof (cases added)
        case False
        with True SeqList 3 show ?thesis by simp
      next
        case added: True
        with True SeqList "3.prems"
        have "\<exists>d \<in> set (fst (processed_lines s added ls)). is_tuple (get_fields d)"
          by auto
        with "3.IH"(2) [OF _ SeqList] True added
        have "process_lines s added ls = Inl AssertionError \<and>
              snd (processed_lines s added ls) = None"
          by simp
        with True SeqList added show ?thesis by simp
      qed
    qed
  qed
qed

lemma processed_lines_no_tuple:
  "\<forall>d \<in> set (fst (processed_lines s a ls)). \<not> is_tuple (get_fields d) \<Longrightarrow>
   snd (processed_lines s a ls) = Some a' \<Longrightarrow>
     \<exists>ls'. process_lines s a ls = Inr (a', ls')"
proof (induction s a ls rule: process_lines.induct)
  case (1 s added)
  then show ?case by simp
next
  case (2 s added v ls)
  then show ?case by auto
next
  case (3 s added d ls)
  show ?case
  proof (cases "dict_truthy d")
    case False
    with 3 show ?thesis by auto
  next
    case True
    show ?thesis
    proof (cases "get_fields d")
      case SeqNone
      with True 3 show ?thesis by simp
    next
      case (SeqTuple fs)
      with True 3 show ?thesis by simp
    next
      case (SeqList fs)
      show ?thesis
      proof (cases added)
        case False
        with True SeqList 3 show ?thesis by auto
      next
        case added: True
        from True SeqList added "3.prems"(1)
        have nt: "\<forall>d \<in> set (fst (processed_lines s added ls)). \<not> is_tuple (get_fields d)"
          by simp
        from True SeqList added "3.prems"(2)
        have sn: "snd (processed_lines s added ls) = Some a'"
          by simp
        from "3.IH"(2) [OF _ SeqList _ nt sn] True added
        obtain ls' where "process_lines s added ls = Inr (a', ls')"
          by auto
        with True SeqList added show ?thesis by simp
      qed
    qed
  qed
qed

lemma processed_tuple:
  "\<exists>d \<in> set (processed s a fss). is_tuple (get_fields d) \<Longrightarrow>
     process_fieldsets s a fss = Inl AssertionError"
proof (induction fss arbitrary: a)
  case Nil
  then show ?case by simp
next
  case (Cons f fss)
  show ?case
  proof (cases "snd (processed_lines s a f)")
    case None
    with Cons.prems
    have "\<exists>d \<in> set (fst (processed_lines s a f)). is_tuple (get_fields d)"
      by simp
    then show ?thesis
      by (simp add: processed_lines_tuple)
  next
    case (Some a')
    have nt: "\<forall>d \<in> set (fst (processed_lines s a f)). \<not> is_tuple (get_fields d)"
      using processed_lines_tuple [of s a f] Some by auto
    then obtain f' where f': "process_lines s a f = Inr (a', f')"
      using processed_lines_no_tuple [OF _ Some] by blast
    from Cons.prems Some nt
    have "\<exists>d \<in> set (processed s a' fss). is_tuple (get_fields d)"
      by auto
    then have "process_fieldsets s a' fss = Inl AssertionError"
      by (rule Cons.IH)
    with f' show ?thesis by simp
  qed
qed

text \<open>
  Claim C10. Whenever a field grouping that the loop processes has a tuple as its
  \<open>fields\<close> value, \<open>get_fieldsets\<close> raises \<open>AssertionError\<close> and returns no fieldsets.
\<close>

theorem tuple_fields_raise:
  "\<exists>d \<in> set (processed s False fss). is_tuple (get_fields d) \<Longrightarrow>
     get_fieldsets s fss = Inl AssertionError"
  unfolding get_fieldsets_def by (rule processed_tuple)

theorem tuple_fields_raise_witness:
  "(\<exists>d \<in> set (processed ''order'' False
        [named_fieldset PNone [''name''],
         [LineValue (PStr ''More''),
          LineDict \<lparr>fields_key = Some (SeqTuple [FName ''order'', FName ''price'']),
                    other_keys = [''classes'']\<rparr>]]).
      is_tuple (get_fields d)) \<and>
   get_fieldsets ''order''
        [named_fieldset PNone [''name''],
         [LineValue (PStr ''More''),
          LineDict \<lparr>fields_key = Some (SeqTuple [FName ''order'', FName ''price'']),
                    other_keys = [''classes'']\<rparr>]]
     = Inl AssertionError"
proof -
  have h: "\<exists>d \<in> set (processed ''order'' False
        [named_fieldset PNone [''name''],
         [LineValue (PStr ''More''),
          LineDict \<lparr>fields_key = Some (SeqTuple [FName ''order'', FName ''price'']),
                    other_keys = [''classes'']\<rparr>]]).
      is_tuple (get_fields d)"
    by (simp add: named_fieldset_def dict_truthy_def get_fields_def)
  from h tuple_fields_raise [OF h] show ?thesis by blast
qed

text \<open>
  Read the other way: when \<open>get_fieldsets\<close> returns, none of the groupings it processed
  was a tuple.
\<close>

lemma get_fieldsets_returns_no_tuple:
  "get_fieldsets s fss = Inr r \<Longrightarrow> d \<in> set (processed s False fss) \<Longrightarrow> \<not> is_tuple (get_fields d)"
  using processed_tuple [of s False fss] by (auto simp: get_fieldsets_def)


section \<open>Applying a reorder batch\<close>

lemma find_record_write:
  "find_record (write_order p st) i =
     map_option (\<lambda>r. if rec_ident r = fst p then r\<lparr>rec_order := snd p\<rparr> else r) (find_record st i)"
  by (induction st) (auto simp: find_record_def write_order_def)

lemma scope_of_write [simp]: "scope_of (write_order p st) i = scope_of st i"
  by (cases "find_record st i") (auto simp: scope_of_def find_record_write)

lemma find_none_write [simp]: "find_record (write_order p st) i = None \<longleftrightarrow> find_record st i = None"
  by (simp add: find_record_write)

lemma scope_of_fold [simp]: "scope_of (fold write_order b st) i = scope_of st i"
  by (induction b arbitrary: st) auto

lemma find_none_fold [simp]:
  "find_record (fold write_order b st) i = None \<longleftrightarrow> find_record st i = None"
  by (induction b arbitrary: st) auto

lemma batch_valid_fold [simp]: "batch_valid (fold write_order b st) c = batch_valid st c"
  by (simp add: batch_valid_def)

lemma upd_ident [simp]: "rec_ident (batch_update b r) = rec_ident r"
  by (simp add: batch_update_def split: option.splits)

lemma upd_scope [simp]: "rec_scope (batch_update b r) = rec_scope r"
  by (simp add: batch_update_def split: option.splits)

lemma upd_Nil [simp]: "batch_update [] r = r"
  by (simp add: batch_update_def batch_order_def)

lemma upd_Cons:
  "batch_update (p # b) r = batch_update b (if rec_ident r = fst p then r\<lparr>rec_order := snd p\<rparr> else r)"
  by (cases p) (auto simp: batch_update_def batch_order_def map_add_def split: option.splits)

text \<open>
  The writes of a batch, made one after the other, change each record of the store as
  \<open>batch_update\<close> says.
\<close>

lemma fold_write_upd: "fold write_order b st = map (batch_update b) st"
proof (induction b arbitrary: st)
  case Nil
  then show ?case by simp
next
  case (Cons p b)
  have "fold write_order (p # b) st = map (batch_update b) (write_order p st)"
    using Cons.IH by simp
  also have "\<dots> = map (batch_update (p # b)) st"
    by (simp add: write_order_def upd_Cons)
  finally show ?case .
qed

lemma upd_idem: "batch_update b (batch_update b r) = batch_update b r"
  by (auto simp: batch_update_def split: option.splits)

lemma fold_write_idem: "fold write_order b (fold write_order b st) = fold write_order b st"
  by (simp add: fold_write_upd upd_idem)

text \<open>
  Claim C4. A batch with an identifier that does not exist, or whose record is not in
  the scope of the other records of the batch, fails with \<open>ValidationError\<close>, and the store
  after the call is the store before it: no order value has changed.
\<close>

theorem invalid_batch_rejected:
  "\<exists>p \<in> set b. find_record st (fst p) = None \<or>
                  (\<exists>q \<in> set b. scope_of st (fst q) \<noteq> scope_of st (fst p)) \<Longrightarrow>
     apply_batch b st = (Inl ValidationError, st)"
  by (auto simp: apply_batch_def batch_valid_def)

theorem invalid_batch_rejected_witness:
  "find_record
      [\<lparr>rec_ident = 1, rec_order = 1, rec_scope = 0\<rparr>,
       \<lparr>rec_ident = 2, rec_order = 2, rec_scope = 0\<rparr>,
       \<lparr>rec_ident = 3, rec_order = 3, rec_scope = 0\<rparr>] 9 = None \<and>
   apply_batch [(3, 1), (9, 2)]
      [\<lparr>rec_ident = 1, rec_order = 1, rec_scope = 0\<rparr>,
       \<lparr>rec_ident = 2, rec_order = 2, rec_scope = 0\<rparr>,
       \<lparr>rec_ident = 3, rec_order = 3, rec_scope = 0\<rparr>]
    = (Inl ValidationError,
       [\<lparr>rec_ident = 1, rec_order = 1, rec_scope = 0\<rparr>,
        \<lparr>rec_ident = 2, rec_order = 2, rec_scope = 0\<rparr>,
        \<lparr>rec_ident = 3, rec_order = 3, rec_scope = 0\<rparr>])"
proof -
  let ?st = "[\<lparr>rec_ident = 1, rec_order = 1, rec_scope = 0\<rparr>,
       \<lparr>rec_ident = 2, rec_order = 2, rec_scope = 0\<rparr>,
       \<lparr>rec_ident = 3, rec_order = 3, rec_scope = 0::nat\<rparr>]"
  let ?b = "[(3, 1), (9, 2)] :: reorder_batch"
  have h: "\<exists>p \<in> set ?b. find_record ?st (fst p) = None \<or>
             (\<exists>q \<in> set ?b. scope_of ?st (fst q) \<noteq> scope_of ?st (fst p))"
    by (simp add: find_record_def)
  have n: "find_record ?st 9 = None"
    by (simp add: find_record_def)
  from n invalid_batch_rejected [OF h] show ?thesis
    by simp
qed

text \<open>
  A batch over two scopes is rejected in the same way.
\<close>

lemma cross_scope_batch_rejected:
  "apply_batch [(1, 5), (2, 6)]
      [\<lparr>rec_ident = 1, rec_order = 1, rec_scope = 0\<rparr>,
       \<lparr>rec_ident = 2, rec_order = 2, rec_scope = 1\<rparr>]
    = (Inl ValidationError,
       [\<lparr>rec_ident = 1, rec_order = 1, rec_scope = 0\<rparr>,
        \<lparr>rec_ident = 2, rec_order = 2, rec_scope = 1\<rparr>])"
  by (simp add: apply_batch_def batch_valid_def find_record_def scope_of_def)

text \<open>
  Claim C8. When a batch has been applied with success, applying it again succeeds too
  and gives the same stored order values, hence the same change list and the same inline
  view of every scope.
\<close>

theorem apply_batch_idempotent:
  "fst (apply_batch b st) = Inr () \<Longrightarrow>
     apply_batch b (snd (apply_batch b st)) = apply_batch b st \<and>
     changelist_view cl request (snd (apply_batch b (snd (apply_batch b st))))
       = changelist_view cl request (snd (apply_batch b st)) \<and>
     inline_view so pkn (snd (apply_batch b (snd (apply_batch b st)))) s
       = inline_view so pkn (snd (apply_batch b st)) s"
  by (auto simp: apply_batch_def fold_write_idem split: if_splits)

theorem apply_batch_idempotent_witness:
  "fst (apply_batch [(3, 1), (1, 2), (2, 3)]
      [\<lparr>rec_ident = 1, rec_order = 1, rec_scope = 0\<rparr>,
       \<lparr>rec_ident = 2, rec_order = 2, rec_scope = 0\<rparr>,
       \<lparr>rec_ident = 3, rec_order = 3, rec_scope = 0\<rparr>]) = Inr () \<and>
   apply_batch [(3, 1), (1, 2), (2, 3)]
     (snd (apply_batch [(3, 1), (1, 2), (2, 3)]
      [\<lparr>rec_ident = 1, rec_order = 1, rec_scope = 0\<rparr>,
       \<lparr>rec_ident = 2, rec_order = 2, rec_scope = 0\<rparr>,
       \<lparr>rec_ident = 3, rec_order = 3, rec_scope = 0\<rparr>]))
    = (Inr (),
       [\<lparr>rec_ident = 1, rec_order = 2, rec_scope = 0\<rparr>,
        \<lparr>rec_ident = 2, rec_order = 3, rec_scope = 0\<rparr>,
        \<lparr>rec_ident = 3, rec_order = 1, rec_scope = 0\<rparr>])"
proof -
  let ?st = "[\<lparr>rec_ident = 1, rec_order = 1, rec_scope = 0\<rparr>,
       \<lparr>rec_ident = 2, rec_order = 2, rec_scope = 0\<rparr>,
       \<lparr>rec_ident = 3, rec_order = 3, rec_scope = 0::nat\<rparr>]"
  let ?b = "[(3, 1), (1, 2), (2, 3)] :: reorder_batch"
  have once: "apply_batch ?b ?st =
      (Inr (), [\<lparr>rec_ident = 1, rec_order = 2, rec_scope = 0\<rparr>,
        \<lparr>rec_ident = 2, rec_order = 3, rec_scope = 0\<rparr>,
        \<lparr>rec_ident = 3, rec_order = 1, rec_scope = 0\<rparr>])"
    by (simp add: apply_batch_def batch_valid_def find_record_def scope_of_def write_order_def)
  then have ok: "fst (apply_batch ?b ?st) = Inr ()"
    by simp
  from apply_batch_idempotent
      [OF ok, where cl = "\<lparr>model_admin_sortable = ''order'', model_pk_name = ''id''\<rparr>"
         and request = "()" and so = "''order''" and pkn = "''id''" and s = 0]
    once ok show ?thesis
    by simp
qed


section \<open>The views after a batch\<close>


lemma batch_order_distinct:
  "distinct (map fst b) \<Longrightarrow> (i, n) \<in> set b \<Longrightarrow> batch_order b i = Some n"
  by (simp add: batch_order_def distinct_rev rev_map [symmetric])


















end
